theory Spec2Isabelle
  imports Complex_Main
begin

section \<open>Data model of the notebook\<close>

text \<open>
  Cell 9 builds every raw document as
  \<^verbatim>\<open>{"text": text, "metadata": {"claimReviewed": ..., "url": ...}}\<close>
  and cell 13 builds every chunk document as \<^verbatim>\<open>{"text": chunk, "metadata": metadata}\<close>.
  The dictionaries have fixed keys, so they are records. The dictionary that
  \<^verbatim>\<open>IR.search\<close> returns, \<^verbatim>\<open>{**self.documents[i], "score": ...}\<close>, is the document
  extended by the key \<^verbatim>\<open>score\<close>: a record extension.

  Embeddings and scores are modelled over the reals: rounding of the float32
  arithmetic and NaN are outside the model.
\<close>

record metadata =
  claimReviewed :: string
  url :: string

record document =
  "text" :: string
  metadata :: metadata

record search_result = document +
  score :: real

text \<open>
  The embedding store is a numpy array. Cell 19 yields a 2-dimensional array
  of one row per document, and for an empty list of documents the
  1-dimensional array of shape \<^verbatim>\<open>(0,)\<close>. A 2-dimensional array is given by its
  number of columns and its rows (each of that many entries), a 1-dimensional
  array by its entries.
\<close>

datatype ndarray = Array1 "real list" | Array2 nat "real list list"

text \<open>
  The class \<^verbatim>\<open>IR\<close>: the chunk documents, the embedding store and the embedding
  model, of which only \<^verbatim>\<open>encode\<close> on one query string is used.
\<close>

record IR =
  documents :: "document list"
  vectorstore :: ndarray
  model :: "string \<Rightarrow> real list"

text \<open>
  The exceptions \<^verbatim>\<open>IR.search\<close> can raise: \<^verbatim>\<open>torch.mm\<close> on operands whose inner
  dimensions differ, slicing a 0-dimensional tensor, and indexing the Python
  list \<^verbatim>\<open>self.documents\<close> out of range.
\<close>

datatype error =
    RuntimeError_shapes
  | IndexError_slice_0dim
  | IndexError_list_index

section \<open>The tensor operations used by \<^verbatim>\<open>IR.search\<close>\<close>

definition dot :: "real list \<Rightarrow> real list \<Rightarrow> real" where
  "dot a b = sum_list (map (\<lambda>(x, y). x * y) (zip a b))"

text \<open>
  \<^verbatim>\<open>util.dot_score(a, b)\<close> makes a matrix of each 1-dimensional argument by
  \<^verbatim>\<open>unsqueeze(0)\<close>: the array becomes the one row of the matrix. These are the
  rows and the number of columns of the matrix that \<^verbatim>\<open>b\<close> is then.
\<close>

fun matrix_rows :: "ndarray \<Rightarrow> real list list" where
  "matrix_rows (Array1 v) = [v]"
| "matrix_rows (Array2 cols rows) = rows"

fun matrix_cols :: "ndarray \<Rightarrow> nat" where
  "matrix_cols (Array1 v) = length v"
| "matrix_cols (Array2 cols rows) = cols"

text \<open>
  \<^verbatim>\<open>util.dot_score(a, b)\<close> with a 1-dimensional \<^verbatim>\<open>a\<close>: \<^verbatim>\<open>a\<close> becomes a matrix of one
  row and the result is \<^verbatim>\<open>torch.mm(a, b.transpose(0, 1))\<close>, a matrix of one row
  with one dot product per row of \<^verbatim>\<open>b\<close>; the model returns that row. The
  product raises when the number of columns of \<^verbatim>\<open>b\<close> is not the length of \<^verbatim>\<open>a\<close>,
  also when \<^verbatim>\<open>b\<close> has no row.
\<close>

definition dot_score :: "real list \<Rightarrow> ndarray \<Rightarrow> error + real list" where
  "dot_score a b =
     (if matrix_cols b = length a
      then Inr (map (dot a) (matrix_rows b))
      else Inl RuntimeError_shapes)"

text \<open>
  What \<^verbatim>\<open>squeeze()\<close> leaves of a matrix of one row, given by that row: every
  dimension of size one is removed, so a row of \<open>n \<noteq> 1\<close> entries becomes a
  vector of \<open>n\<close> entries, and a row of a single entry becomes a 0-dimensional
  tensor.
\<close>

datatype tensor = Scalar real | Vec "real list"

datatype index_tensor = IScalar nat | IVec "nat list"

fun squeeze :: "real list \<Rightarrow> tensor" where
  "squeeze [s] = Scalar s"
| "squeeze row = Vec row"

fun neg :: "tensor \<Rightarrow> tensor" where
  "neg (Scalar s) = Scalar (- s)"
| "neg (Vec xs) = Vec (map uminus xs)"

text \<open>
  \<^verbatim>\<open>argsort()\<close> is called with no \<^verbatim>\<open>stable=True\<close>. What torch promises of it is
  that it returns the positions of the vector, each once, in ascending order
  of their entries; the order of positions with equal entries is left to the
  sort routine underneath, and it is not the insertion order in general. The
  sort is therefore a parameter of the model: a \<open>sorter\<close> is any function with
  the promised property.
\<close>

typedef sorter =
  "{srt :: real list \<Rightarrow> nat list.
      \<forall>xs. distinct (srt xs) \<and> set (srt xs) = {0..<length xs}
            \<and> sorted (map (\<lambda>i. xs ! i) (srt xs))}"
  by (rule exI [of _ "\<lambda>xs. sort_key (\<lambda>i. xs ! i) [0..<length xs]"]) simp

text \<open>The argsort of a 0-dimensional tensor is the 0-dimensional index 0.\<close>

fun argsort :: "sorter \<Rightarrow> tensor \<Rightarrow> index_tensor" where
  "argsort srt (Scalar s) = IScalar 0"
| "argsort srt (Vec xs) = IVec (Rep_sorter srt xs)"

text \<open>
  One sorter, for the examples: the stable sort, which keeps positions of
  equal entries in ascending order.
\<close>

definition stable_sorter :: sorter where
  "stable_sorter = Abs_sorter (\<lambda>xs. sort_key (\<lambda>i. xs ! i) [0..<length xs])"

text \<open>
  The slice \<^verbatim>\<open>t[:k]\<close>: the first \<open>k\<close> entries for \<open>k \<ge> 0\<close>, all but the last
  \<open>-k\<close> entries for \<open>k < 0\<close>; a 0-dimensional tensor cannot be sliced.
\<close>

fun slice_to :: "int \<Rightarrow> index_tensor \<Rightarrow> error + nat list" where
  "slice_to k (IScalar i) = Inl IndexError_slice_0dim"
| "slice_to k (IVec is) =
     Inr (if 0 \<le> k then take (nat k) is else take (length is - nat (- k)) is)"

text \<open>\<^verbatim>\<open>scores[i].item()\<close> on the squeezed scores; \<open>i\<close> comes from their argsort.\<close>

fun item_at :: "tensor \<Rightarrow> nat \<Rightarrow> real" where
  "item_at (Scalar s) i = s"
| "item_at (Vec xs) i = xs ! i"

section \<open>\<^verbatim>\<open>IR.search\<close>\<close>

text \<open>
  The list comprehension
  \<^verbatim>\<open>[{**self.documents[i], "score": scores[i].item()} for i in topk]\<close>:
  evaluated from left to right, it raises at the first position that is out of
  the range of \<^verbatim>\<open>self.documents\<close>.
\<close>

fun collect :: "document list \<Rightarrow> tensor \<Rightarrow> nat list \<Rightarrow> error + search_result list" where
  "collect docs scores [] = Inr []"
| "collect docs scores (i # is) =
     (if i < length docs
      then (case collect docs scores is of
              Inl e \<Rightarrow> Inl e
            | Inr rs \<Rightarrow> Inr (document.extend (docs ! i) \<lparr>score = item_at scores i\<rparr> # rs))
      else Inl IndexError_list_index)"

text \<open>The positions \<^verbatim>\<open>topk = (-scores).argsort()[:k]\<close> of a search.\<close>

definition search_topk :: "sorter \<Rightarrow> IR \<Rightarrow> string \<Rightarrow> int \<Rightarrow> error + nat list" where
  "search_topk srt self query k =
     (let query_embedding = model self query in
      case dot_score query_embedding (vectorstore self) of
        Inl e \<Rightarrow> Inl e
      | Inr m \<Rightarrow> slice_to k (argsort srt (neg (squeeze m))))"

definition search :: "sorter \<Rightarrow> IR \<Rightarrow> string \<Rightarrow> int \<Rightarrow> error + search_result list" where
  "search srt self query k =
     (let query_embedding = model self query in
      case dot_score query_embedding (vectorstore self) of
        Inl e \<Rightarrow> Inl e
      | Inr m \<Rightarrow>
          (let scores = squeeze m in
           case slice_to k (argsort srt (neg scores)) of
             Inl e \<Rightarrow> Inl e
           | Inr topk \<Rightarrow> collect (documents self) scores topk))"

section \<open>Auxiliary notions for the statements about \<^verbatim>\<open>IR.search\<close>\<close>

text \<open>The rows of the embedding store as \<^verbatim>\<open>dot_score\<close> reads it.\<close>

definition store_rows :: "IR \<Rightarrow> real list list" where
  "store_rows self = matrix_rows (vectorstore self)"

text \<open>The vector of scores of a search: one dot product per row of the store.\<close>

definition scores :: "IR \<Rightarrow> string \<Rightarrow> real list" where
  "scores self query = map (dot (model self query)) (store_rows self)"

text \<open>The full argsort of the negated scores, before the slice.\<close>

definition ranking :: "sorter \<Rightarrow> real list \<Rightarrow> nat list" where
  "ranking srt sc = Rep_sorter srt (map uminus sc)"

text \<open>
  The store has the number of columns of the query's embedding, so that
  \<^verbatim>\<open>torch.mm\<close> accepts its operands.
\<close>

definition well_shaped :: "IR \<Rightarrow> string \<Rightarrow> bool" where
  "well_shaped self query \<longleftrightarrow> matrix_cols (vectorstore self) = length (model self query)"

section \<open>Building the index\<close>

text \<open>
  \<^verbatim>\<open>model.encode(texts)\<close> on a list of texts: a 2-dimensional array of one row
  per text, each of the dimension of the model; on the empty list the
  1-dimensional array of no entry, of shape \<^verbatim>\<open>(0,)\<close>.
\<close>

definition encode_batch :: "(string \<Rightarrow> real list) \<Rightarrow> string list \<Rightarrow> ndarray" where
  "encode_batch enc texts =
     (case texts of
        [] \<Rightarrow> Array1 []
      | t # _ \<Rightarrow> Array2 (length (enc t)) (map enc texts))"

text \<open>
  Cell 19: when the file of embeddings exists it is loaded as it is, otherwise
  the texts of the documents are encoded and the array is saved. The file is
  \<open>Some\<close> array when it exists; the result is the array and the file
  afterwards.
\<close>

definition load_or_encode ::
  "ndarray option \<Rightarrow> (string \<Rightarrow> real list) \<Rightarrow> document list \<Rightarrow> ndarray \<times> ndarray option" where
  "load_or_encode file enc docs =
     (case file of
        Some cached \<Rightarrow> (cached, file)
      | None \<Rightarrow> (let vs = encode_batch enc (map text docs) in (vs, Some vs)))"

text \<open>Cell 22: \<^verbatim>\<open>index = IR(documents, vectorstore, model)\<close>.\<close>

definition build_index :: "ndarray option \<Rightarrow> (string \<Rightarrow> real list) \<Rightarrow> document list \<Rightarrow> IR" where
  "build_index file enc docs =
     \<lparr>documents = docs, vectorstore = fst (load_or_encode file enc docs), model = enc\<rparr>"

section \<open>Example indexes\<close>

definition example_documents :: "document list" where
  "example_documents =
     [\<lparr>text = ''first chunk'', metadata = \<lparr>claimReviewed = ''claim a'', url = ''https://a''\<rparr>\<rparr>,
      \<lparr>text = ''second chunk'', metadata = \<lparr>claimReviewed = ''claim a'', url = ''https://a''\<rparr>\<rparr>,
      \<lparr>text = ''third chunk'', metadata = \<lparr>claimReviewed = ''claim b'', url = ''https://b''\<rparr>\<rparr>]"

text \<open>Three chunks of scores 1, 4 and 2 for the query.\<close>

definition graded_index :: IR where
  "graded_index = \<lparr>documents = example_documents,
                 vectorstore = Array2 2 [[1, 0], [3, 1], [2, 0]],
                 model = (\<lambda>q. [1, 1])\<rparr>"

text \<open>
  An index built from two documents while the file of embeddings holds three
  rows, left by an earlier corpus.
\<close>

definition stale_index :: IR where
  "stale_index = build_index (Some (Array2 2 [[1, 0], [3, 1], [2, 0]])) (\<lambda>q. [1, 1]) (take 2 example_documents)"

section \<open>The chat\<close>

text \<open>\<^verbatim>\<open>sep.join(xs)\<close> on strings.\<close>

fun join :: "string \<Rightarrow> string list \<Rightarrow> string" where
  "join sep [] = []"
| "join sep [x] = x"
| "join sep (x # y # ys) = x @ sep @ join sep (y # ys)"

definition document_separator :: string where
  "document_separator = ''\<newline>\<newline>''"

text \<open>
  The two prompt templates with their \<^verbatim>\<open>format\<close>: the text of the template
  with the arguments in the places of \<^verbatim>\<open>{context}\<close>, \<^verbatim>\<open>{chat_history}\<close> and
  \<^verbatim>\<open>{question}\<close>.
\<close>

definition question_template :: "string \<Rightarrow> string \<Rightarrow> string" where
  "question_template context question =
     ''Use the following pieces of context to answer the question at the end. If you don't know the answer, just say that you don't know.\<newline>\<newline>''
     @ context @ ''\<newline>\<newline>Question: '' @ question @ ''\<newline>Helpful Answer:''"

definition history_template :: "string \<Rightarrow> string \<Rightarrow> string" where
  "history_template chat_history question =
     ''Given the following conversation and a follow up question, rephrase the follow up question to be a standalone question.\<newline>\<newline>Chat History:\<newline>''
     @ chat_history @ ''\<newline>Follow Up Input: '' @ question @ ''\<newline>Standalone question:''"

text \<open>
  The generator is an external service: \<^verbatim>\<open>llm.completion\<close> is taken as a
  function of its argument, a prompt string in \<^verbatim>\<open>follow_up_query\<close> and a list of
  messages (role and content) in \<^verbatim>\<open>__call__\<close>.
\<close>

datatype llm_input = Prompt string | Messages "(string \<times> string) list"

record ChatQA =
  ir :: IR
  llm :: "llm_input \<Rightarrow> string"
  history :: "string list"

text \<open>The decimal numeral of \<^verbatim>\<open>f"{i+1}"\<close>.\<close>

definition digit :: "nat \<Rightarrow> char" where
  "digit d = ''0123456789'' ! d"

function str_nat :: "nat \<Rightarrow> string" where
  "str_nat n = (if n < 10 then [digit n] else str_nat (n div 10) @ [digit (n mod 10)])"
  by pat_completeness auto
termination
  by (relation "measure (\<lambda>n. n)") auto

text \<open>
  \<^verbatim>\<open>dict.fromkeys(keys)\<close>: a dictionary keeps its keys in the order of their
  first insertion, so it is a list of pairs; every value is \<^verbatim>\<open>None\<close>, and
  \<^verbatim>\<open>list(d)\<close> is the list of the keys.
\<close>

definition fromkeys :: "'a list \<Rightarrow> ('a \<times> unit) list" where
  "fromkeys keys = foldl (\<lambda>d k. if k \<in> set (map fst d) then d else d @ [(k, ())]) [] keys"

definition reset :: "ChatQA \<Rightarrow> ChatQA" where
  "reset self = self\<lparr>history := []\<rparr>"

definition follow_up_query :: "ChatQA \<Rightarrow> string \<Rightarrow> string" where
  "follow_up_query self question =
     (let prompt = history_template (join ''/n'' (history self)) question
      in llm self (Prompt prompt))"

text \<open>
  \<^verbatim>\<open>ChatQA.__call__\<close>, which calls \<^verbatim>\<open>self.ir.search(query)\<close> with the default
  \<open>k = 4\<close>. It returns the answer with the citations and the object with its
  history after the call; an exception of the search ends the call.
\<close>

definition ChatQA_call :: "sorter \<Rightarrow> ChatQA \<Rightarrow> string \<Rightarrow> bool \<Rightarrow> error + string \<times> ChatQA" where
  "ChatQA_call srt self question hist =
     (let query = (if hist \<and> length (history self) \<noteq> 0
                   then follow_up_query self question else question)
      in case search srt (ir self) query 4 of
           Inl e \<Rightarrow> Inl e
         | Inr docs \<Rightarrow>
             (let contexts = map text docs;
                  context = join document_separator contexts;
                  prompt = question_template context query;
                  messages = [(''system'', prompt)];
                  answer = llm self (Messages messages);
                  self' = (if hist
                           then self\<lparr>history := history self @ [join ''\<newline>'' [prompt, answer]]\<rparr>
                           else self);
                  urls = map (\<lambda>document. url (metadata document)) docs;
                  urls = map fst (fromkeys urls);
                  citation = map (\<lambda>(i, u). str_nat (i + 1) @ ''. '' @ u) (enumerate 0 urls)
              in Inr (join ''\<newline>'' (answer # citation), self')))"

text \<open>
  The URLs cited by a call, from the results of its search; the position of
  the first occurrence of an element in a list (the length of the list when it
  does not occur); the elements of a list not seen before, in order.
\<close>

definition cited_urls :: "search_result list \<Rightarrow> string list" where
  "cited_urls docs = map fst (fromkeys (map (\<lambda>document. url (metadata document)) docs))"

definition first_index :: "'a list \<Rightarrow> 'a \<Rightarrow> nat" where
  "first_index xs x = length (takeWhile (\<lambda>y. y \<noteq> x) xs)"

fun unseen :: "'a list \<Rightarrow> 'a list \<Rightarrow> 'a list" where
  "unseen seen [] = []"
| "unseen seen (k # ks) = (if k \<in> set seen then unseen seen ks else k # unseen (seen @ [k]) ks)"

text \<open>A chat on the index of scores 1, 4 and 2, whose generator answers yes.\<close>

definition chat_example :: ChatQA where
  "chat_example = \<lparr>ir = graded_index, llm = (\<lambda>m. ''yes''), history = []\<rparr>"

section \<open>The splitter\<close>

text \<open>
  Modelled from the spec: the function \<^verbatim>\<open>split_text\<close> of the module \<^verbatim>\<open>utils\<close>, which
  the notebook imports (cell 11) and calls (cell 13), is not among the sources.
  The definitions of this section follow section 4.1 of the specification. The
  one error of the splitter is the rejection of a non-positive chunk size.
\<close>

datatype split_error = InvalidConfiguration

text \<open>
  Modelled from the spec: step 1, splitting a text on a non-empty separator, as
  \<^verbatim>\<open>str.split\<close> does: the pieces between the occurrences of the separator, found
  from left to right. \<open>skip\<close> counts the characters of a separator that are still
  to be passed over, \<open>piece\<close> holds the current piece in reverse.
\<close>

fun split_sep :: "string \<Rightarrow> nat \<Rightarrow> string \<Rightarrow> string \<Rightarrow> string list" where
  "split_sep sep skip piece [] = [rev piece]"
| "split_sep sep skip piece (c # cs) =
     (if 0 < skip then split_sep sep (skip - 1) piece cs
      else if take (length sep) (c # cs) = sep
           then rev piece # split_sep sep (length sep - 1) [] cs
           else split_sep sep 0 (c # piece) cs)"

text \<open>
  Modelled from the spec: step 1; on the empty separator the pieces are the
  characters of the text.
\<close>

definition split_on :: "string \<Rightarrow> string \<Rightarrow> string list" where
  "split_on sep txt = (if sep = [] then map (\<lambda>c. [c]) txt else split_sep sep 0 [] txt)"

text \<open>
  Modelled from the spec: step 2, emitting the buffer, a list of pieces, as one
  chunk: the pieces joined by the separator; nothing when there is no piece.
\<close>

definition emit :: "string \<Rightarrow> string list \<Rightarrow> string list" where
  "emit sep buffer = (if buffer = [] then [] else [join sep buffer])"

text \<open>
  Modelled from the spec: step 3, the seed of a new buffer: the longest run of
  trailing pieces of the previous buffer which, joined by the separator, has at
  most \<open>chunk_overlap\<close> characters; no piece when no run has.
\<close>

definition seed :: "string \<Rightarrow> int \<Rightarrow> string list \<Rightarrow> string list" where
  "seed sep chunk_overlap buffer =
     (case filter (\<lambda>suffix. int (length (join sep suffix)) \<le> chunk_overlap)
             (map (\<lambda>n. drop n buffer) [0..<Suc (length buffer)]) of
        [] \<Rightarrow> []
      | suffix # _ \<Rightarrow> suffix)"

text \<open>
  Modelled from the spec: steps 2 to 4, packing the pieces from left to right.
  A piece longer than \<open>chunk_size\<close> is not packed: the buffer is emitted, the
  piece is split by \<open>recurse\<close> (the next separators), and packing goes on with an
  empty buffer. A piece that would push the joined buffer over \<open>chunk_size\<close>
  has the buffer emitted and starts a new buffer after its seed. The last
  buffer is emitted at the end.
\<close>

fun pack ::
  "(string \<Rightarrow> string list) \<Rightarrow> string \<Rightarrow> int \<Rightarrow> int \<Rightarrow> string list \<Rightarrow> string list
     \<Rightarrow> string list" where
  "pack recurse sep chunk_size chunk_overlap buffer [] = emit sep buffer"
| "pack recurse sep chunk_size chunk_overlap buffer (piece # pieces) =
     (if chunk_size < int (length piece)
      then emit sep buffer @ recurse piece @ pack recurse sep chunk_size chunk_overlap [] pieces
      else if chunk_size < int (length (join sep (buffer @ [piece])))
      then emit sep buffer
             @ pack recurse sep chunk_size chunk_overlap (seed sep chunk_overlap buffer @ [piece]) pieces
      else pack recurse sep chunk_size chunk_overlap (buffer @ [piece]) pieces)"

text \<open>
  Modelled from the spec: steps 1 and 4, the cascade of separators. With no
  separator left the text is emitted as it is (the hard cut).
\<close>

fun split_cascade :: "string \<Rightarrow> int \<Rightarrow> int \<Rightarrow> string list \<Rightarrow> string list" where
  "split_cascade txt chunk_size chunk_overlap [] = [txt]"
| "split_cascade txt chunk_size chunk_overlap (sep # separators) =
     pack (\<lambda>piece. split_cascade piece chunk_size chunk_overlap separators)
       sep chunk_size chunk_overlap [] (split_on sep txt)"

text \<open>Modelled from the spec: step 5, the whitespace characters of a dropped chunk.\<close>

definition is_space :: "char \<Rightarrow> bool" where
  "is_space c \<longleftrightarrow> List.member [CHR '' '', CHR 0x09, CHR 0x0A, CHR 0x0B, CHR 0x0C, CHR 0x0D] c"

text \<open>
  Modelled from the spec: the contract of \<^verbatim>\<open>split\<close>: a chunk size that is not
  positive is rejected at entry; the result is the sequence of the emitted
  chunks without the empty and the whitespace-only ones.
\<close>

definition split_text :: "string \<Rightarrow> int \<Rightarrow> int \<Rightarrow> string list \<Rightarrow> split_error + string list" where
  "split_text txt chunk_size chunk_overlap separators =
     (if chunk_size \<le> 0 then Inl InvalidConfiguration
      else Inr (filter (\<lambda>chunk. \<not> list_all is_space chunk)
                  (split_cascade txt chunk_size chunk_overlap separators)))"

section \<open>Auxiliary lemmas\<close>

lemma collect_in_range:
  "\<forall>i\<in>set is. i < length docs \<Longrightarrow>
   collect docs sc is = Inr (map (\<lambda>i. document.extend (docs ! i) \<lparr>score = item_at sc i\<rparr>) is)"
  by (induction "is") auto

lemma collect_Inr:
  "collect docs sc is = Inr rs \<Longrightarrow>
     (\<forall>i\<in>set is. i < length docs) \<and>
     rs = map (\<lambda>i. document.extend (docs ! i) \<lparr>score = item_at sc i\<rparr>) is"
  by (induction "is" arbitrary: rs) (auto split: sum.splits if_splits)

lemma collect_Inl:
  "collect docs sc is = Inl e \<Longrightarrow> e = IndexError_list_index \<and> (\<exists>i\<in>set is. length docs \<le> i)"
  by (induction "is") (auto split: sum.splits if_splits)

lemma sorter_distinct: "distinct (Rep_sorter srt xs)"
  using Rep_sorter [of srt] by simp

lemma sorter_set: "set (Rep_sorter srt xs) = {0..<length xs}"
  using Rep_sorter [of srt] by simp

lemma sorter_sorted: "sorted (map (\<lambda>i. xs ! i) (Rep_sorter srt xs))"
  using Rep_sorter [of srt] by simp

lemma sorter_length: "length (Rep_sorter srt xs) = length xs"
proof -
  have "length (Rep_sorter srt xs) = card (set (Rep_sorter srt xs))"
    by (simp add: distinct_card sorter_distinct)
  then show ?thesis by (simp add: sorter_set)
qed

lemma Rep_stable_sorter:
  "Rep_sorter stable_sorter xs = sort_key (\<lambda>i. xs ! i) [0..<length xs]"
  by (simp add: stable_sorter_def Abs_sorter_inverse)

lemma squeeze_Vec: "length row \<noteq> 1 \<Longrightarrow> squeeze row = Vec row"
  by (cases row rule: squeeze.cases) auto

lemma squeeze_Scalar: "length row = 1 \<Longrightarrow> \<exists>s. squeeze row = Scalar s"
  by (cases row rule: squeeze.cases) auto

lemma length_scores [simp]: "length (scores self query) = length (store_rows self)"
  by (simp add: scores_def)

lemma set_ranking [simp]: "set (ranking srt sc) = {0..<length sc}"
  by (simp add: ranking_def sorter_set)

lemma length_ranking [simp]: "length (ranking srt sc) = length sc"
  by (simp add: ranking_def sorter_length)

lemma distinct_ranking [simp]: "distinct (ranking srt sc)"
  by (simp add: ranking_def sorter_distinct)

lemma ranking_sorted: "sorted (map (\<lambda>i. map uminus sc ! i) (ranking srt sc))"
  by (simp add: ranking_def sorter_sorted)

lemma search_topk_Inr:
  "search_topk srt self query k = Inr is \<longleftrightarrow>
     well_shaped self query \<and> length (store_rows self) \<noteq> 1 \<and>
     is = (if 0 \<le> k then take (nat k) (ranking srt (scores self query))
           else take (length (store_rows self) - nat (- k)) (ranking srt (scores self query)))"
proof (cases "well_shaped self query")
  case False
  then show ?thesis
    by (simp add: search_topk_def dot_score_def well_shaped_def)
next
  case True
  show ?thesis
  proof (cases "length (store_rows self) = 1")
    case one: True
    then obtain s where "squeeze (scores self query) = Scalar s"
      using squeeze_Scalar [of "scores self query"] by auto
    then show ?thesis using True one
      by (simp add: search_topk_def dot_score_def well_shaped_def scores_def store_rows_def)
  next
    case False
    then have "squeeze (scores self query) = Vec (scores self query)"
      by (simp add: squeeze_Vec)
    then show ?thesis using True False
      by (auto simp: search_topk_def dot_score_def well_shaped_def scores_def store_rows_def
          ranking_def sorter_length)
  qed
qed

lemma search_topk_Inl:
  "search_topk srt self query k = Inl e \<longleftrightarrow>
     (\<not> well_shaped self query \<and> e = RuntimeError_shapes) \<or>
     (well_shaped self query \<and> length (store_rows self) = 1 \<and> e = IndexError_slice_0dim)"
proof (cases "well_shaped self query")
  case False
  then show ?thesis
    by (auto simp: search_topk_def dot_score_def well_shaped_def)
next
  case True
  show ?thesis
  proof (cases "length (store_rows self) = 1")
    case one: True
    then obtain s where "squeeze (scores self query) = Scalar s"
      using squeeze_Scalar [of "scores self query"] by auto
    then show ?thesis using True one
      by (auto simp: search_topk_def dot_score_def well_shaped_def scores_def store_rows_def)
  next
    case False
    then obtain "is" where "search_topk srt self query k = Inr is"
      using True by (simp add: search_topk_Inr)
    then show ?thesis using True False by simp
  qed
qed

lemma search_via_topk:
  "search srt self query k =
     (case search_topk srt self query k of
        Inl e \<Rightarrow> Inl e
      | Inr is \<Rightarrow> collect (documents self) (squeeze (scores self query)) is)"
  by (simp add: search_def search_topk_def scores_def store_rows_def dot_score_def Let_def
      split: sum.splits)

lemma search_topk_prefix:
  assumes "search_topk srt self query k = Inr is"
  shows "\<exists>m. is = take m (ranking srt (scores self query))"
  using assms by (auto simp: search_topk_Inr split: if_splits)

lemma topk_in_range:
  assumes "search_topk srt self query k = Inr is" "i \<in> set is"
  shows "i < length (store_rows self)"
  using assms by (auto simp: search_topk_Inr dest: in_set_takeD split: if_splits)

lemma neg_score_nth:
  "i < length (store_rows self) \<Longrightarrow>
   map uminus (scores self query) ! i = - dot (model self query) (store_rows self ! i)"
  by (simp add: scores_def)

lemma topk_order:
  assumes t: "search_topk srt self query k = Inr is" and ab: "a < b" "b < length is"
  shows "dot (model self query) (store_rows self ! (is ! b))
           \<le> dot (model self query) (store_rows self ! (is ! a))"
proof -
  let ?f = "\<lambda>i. map uminus (scores self query) ! i"
  obtain m where m: "is = take m (ranking srt (scores self query))"
    using search_topk_prefix [OF t] by blast
  have "sorted (map ?f (take m (ranking srt (scores self query))))"
    using ranking_sorted [of "scores self query" srt] by (simp add: take_map [symmetric] sorted_wrt_take)
  then have "sorted (map ?f is)" by (simp add: m)
  then have "?f (is ! a) \<le> ?f (is ! b)"
    using ab by (simp add: sorted_iff_nth_mono)
  moreover have "is ! a < length (store_rows self)" "is ! b < length (store_rows self)"
    using topk_in_range [OF t] ab by simp_all
  ultimately show ?thesis by (simp add: scores_def)
qed

lemma search_Inr:
  assumes "search srt self query k = Inr rs"
  shows "\<exists>is. search_topk srt self query k = Inr is \<and>
           (\<forall>i\<in>set is. i < length (documents self) \<and> i < length (store_rows self)) \<and>
           rs = map (\<lambda>i. document.extend (documents self ! i)
                            \<lparr>score = dot (model self query) (store_rows self ! i)\<rparr>) is"
proof -
  from assms obtain "is" where t: "search_topk srt self query k = Inr is"
    and c: "collect (documents self) (squeeze (scores self query)) is = Inr rs"
    by (auto simp: search_via_topk split: sum.splits)
  from t have n1: "length (store_rows self) \<noteq> 1"
    by (simp add: search_topk_Inr)
  have sub: "\<forall>i\<in>set is. i < length (store_rows self)"
    using topk_in_range [OF t] by blast
  have sq: "squeeze (scores self query) = Vec (scores self query)"
    using n1 by (simp add: squeeze_Vec)
  from c have "\<forall>i\<in>set is. i < length (documents self)"
    and "rs = map (\<lambda>i. document.extend (documents self ! i)
                            \<lparr>score = item_at (Vec (scores self query)) i\<rparr>) is"
    using collect_Inr [OF c] by (simp_all add: sq)
  moreover have "item_at (Vec (scores self query)) i = dot (model self query) (store_rows self ! i)"
    if "i \<in> set is" for i
    using that sub by (auto simp: scores_def)
  ultimately show ?thesis using t sub by auto
qed

lemma search_total:
  assumes ws: "well_shaped self query" and n1: "length (store_rows self) \<noteq> 1"
    and le: "length (store_rows self) \<le> length (documents self)"
  shows "\<exists>is. search_topk srt self query k = Inr is \<and>
           search srt self query k = Inr (map (\<lambda>i. document.extend (documents self ! i)
                            \<lparr>score = dot (model self query) (store_rows self ! i)\<rparr>) is)"
proof -
  obtain "is" where t: "search_topk srt self query k = Inr is"
    using ws n1 by (simp add: search_topk_Inr)
  have rng: "\<forall>i\<in>set is. i < length (store_rows self)"
    using topk_in_range [OF t] by blast
  then have "\<forall>i\<in>set is. i < length (documents self)"
    using le by auto
  then have "collect (documents self) (squeeze (scores self query)) is =
      Inr (map (\<lambda>i. document.extend (documents self ! i)
                  \<lparr>score = item_at (squeeze (scores self query)) i\<rparr>) is)"
    by (rule collect_in_range)
  moreover have "squeeze (scores self query) = Vec (scores self query)"
    using n1 by (simp add: squeeze_Vec)
  moreover have "map (\<lambda>i. document.extend (documents self ! i)
                  \<lparr>score = item_at (Vec (scores self query)) i\<rparr>) is
      = map (\<lambda>i. document.extend (documents self ! i)
                            \<lparr>score = dot (model self query) (store_rows self ! i)\<rparr>) is"
    using rng by (simp add: scores_def)
  ultimately show ?thesis using t by (simp add: search_via_topk)
qed

lemma search_single_row:
  assumes "length (store_rows self) = 1" "well_shaped self query"
  shows "search srt self query k = Inl IndexError_slice_0dim"
  using assms search_topk_Inl [of srt self query k IndexError_slice_0dim]
  by (simp add: search_via_topk)

lemmas eval_search = search_def search_topk_def dot_score_def dot_def example_documents_def
  Rep_stable_sorter upt_rec [of 0] upt_rec [of 1] upt_rec [of 2] upt_rec [of 3]
  numeral_2_eq_2 numeral_3_eq_3

section \<open>Results are sorted by score\<close>

text \<open>
  C2. Whenever \<^verbatim>\<open>search\<close> returns (for any \<open>k\<close>, so for every \<open>k > 0\<close>, and whatever
  the sort does with equal entries), the scores of the results are
  non-increasing: of two results, the earlier one has the greater or equal
  score, and so have in particular two adjacent results.
\<close>

theorem search_sorted_by_score:
  assumes "search srt self query k = Inr rs"
  shows "sorted_wrt (\<ge>) (map score rs) \<and>
         (\<forall>j. Suc j < length rs \<longrightarrow> score (rs ! Suc j) \<le> score (rs ! j))"
proof -
  obtain "is" where t: "search_topk srt self query k = Inr is"
    and rs: "rs = map (\<lambda>i. document.extend (documents self ! i)
                            \<lparr>score = dot (model self query) (store_rows self ! i)\<rparr>) is"
    using search_Inr [OF assms] by blast
  have sc: "map score rs = map (\<lambda>i. dot (model self query) (store_rows self ! i)) is"
    by (simp add: rs document.extend_def comp_def)
  have "sorted_wrt (\<ge>) (map score rs)"
    unfolding sc sorted_wrt_iff_nth_less
    using topk_order [OF t] by simp
  moreover from this have "\<forall>j. Suc j < length rs \<longrightarrow> score (rs ! Suc j) \<le> score (rs ! j)"
    by (auto simp: sorted_wrt_iff_nth_less)
  ultimately show ?thesis by simp
qed

theorem search_sorted_by_score_witness:
  "search stable_sorter graded_index ''q'' 2 =
     Inr [document.extend (example_documents ! 1) \<lparr>score = 4\<rparr>,
          document.extend (example_documents ! 2) \<lparr>score = 2\<rparr>] \<and>
   sorted_wrt (\<ge>) [4, 2 :: real]"
proof -
  have s: "search stable_sorter graded_index ''q'' 2 =
     Inr [document.extend (example_documents ! 1) \<lparr>score = 4\<rparr>,
          document.extend (example_documents ! 2) \<lparr>score = 2\<rparr>]"
    by (simp add: graded_index_def eval_search)
  from search_sorted_by_score [OF s] have "sorted_wrt (\<ge>) [4, 2 :: real]"
    by (simp add: document.extend_def)
  with s show ?thesis by simp
qed

section \<open>The number of results\<close>

text \<open>
  On an index whose store has the columns of the query's embedding and as many
  rows as there are documents, and whose number of chunks is not one, a search
  for \<open>k > 0\<close> returns \<open>min k n\<close> results, and for \<open>k \<ge> n\<close> the results are the \<open>n\<close>
  documents, each exactly once.
\<close>

lemma search_built_length:
  assumes ws: "well_shaped self query"
    and n: "length (store_rows self) = length (documents self)" "length (documents self) \<noteq> 1"
    and k: "0 < k"
  shows "\<exists>is rs. search_topk srt self query k = Inr is \<and> search srt self query k = Inr rs \<and>
           length rs = min (nat k) (length (documents self)) \<and>
           map document.truncate rs = map (\<lambda>i. documents self ! i) is \<and>
           (int (length (documents self)) \<le> k \<longrightarrow>
              distinct is \<and> set is = {0..<length (documents self)})"
proof -
  obtain "is" where t: "search_topk srt self query k = Inr is"
    and s: "search srt self query k = Inr (map (\<lambda>i. document.extend (documents self ! i)
                            \<lparr>score = dot (model self query) (store_rows self ! i)\<rparr>) is)"
    using search_total [OF ws, of srt k] n by auto
  have is_eq: "is = take (nat k) (ranking srt (scores self query))"
    using t k by (simp add: search_topk_Inr)
  have "length is = min (nat k) (length (documents self))"
    by (simp add: is_eq n min.commute)
  moreover have "distinct is \<and> set is = {0..<length (documents self)}"
    if "int (length (documents self)) \<le> k"
  proof -
    have "is = ranking srt (scores self query)" using that n by (simp add: is_eq)
    then show ?thesis by (simp add: n)
  qed
  ultimately show ?thesis using t s
    by (auto simp: comp_def document.extend_def document.truncate_def)
qed

text \<open>
  C3. A search for \<open>k > 0\<close> on an index of \<open>n\<close> chunks is to return \<open>min k n\<close>
  results and to raise nothing. On an index of one chunk it does not: the
  matrix of scores has one row of one entry, \<^verbatim>\<open>squeeze()\<close> leaves a 0-dimensional
  tensor, and the slice \<^verbatim>\<open>[:k]\<close> of its argsort raises, here for \<open>k = 4\<close>.
\<close>

theorem search_single_chunk_raises:
  "search srt \<lparr>documents = [d], vectorstore = Array2 2 [[1, 0]], model = (\<lambda>q. [1, 1])\<rparr> query 4
     = Inl IndexError_slice_0dim"
  by (simp add: search_def dot_score_def)

section \<open>Searching an empty index\<close>

text \<open>
  On no documents and a 2-dimensional store of no row that has the columns of
  the query's embedding, a search returns the empty list, for every \<open>k\<close>.
\<close>

lemma search_empty_matrix:
  "search srt \<lparr>documents = [], vectorstore = Array2 (length (enc query)) [], model = enc\<rparr> query k
     = Inr []"
proof -
  have "Rep_sorter srt [] = []"
    using sorter_length [of srt "[]"] by simp
  then show ?thesis
    by (simp add: search_def dot_score_def)
qed

text \<open>
  C4. A search on an index of zero chunks is to return the empty sequence. The
  index that cells 13, 19 and 22 build from zero documents has no document and
  the store \<^verbatim>\<open>model.encode([])\<close>, the 1-dimensional array of shape \<^verbatim>\<open>(0,)\<close>;
  \<^verbatim>\<open>dot_score\<close> reads it as one row of no column, and with a query embedding of
  two entries \<^verbatim>\<open>torch.mm\<close> raises: the search returns nothing, for every \<open>k\<close>.
\<close>

theorem search_built_empty_index_raises:
  "search srt (build_index None (\<lambda>q. [1, 1]) []) query k = Inl RuntimeError_shapes"
  by (simp add: search_def dot_score_def build_index_def load_or_encode_def encode_batch_def
      Let_def)

section \<open>A non-positive \<open>k\<close>\<close>

text \<open>
  C5, as stated, fails: \<^verbatim>\<open>search\<close> does not check \<open>k\<close>. For \<open>k = -1\<close> on an index of
  three chunks it returns the two best results instead of raising.
\<close>

theorem search_nonpositive_k_counterexample:
  "search stable_sorter graded_index ''q'' (- 1) =
     Inr [document.extend (example_documents ! 1) \<lparr>score = 4\<rparr>,
          document.extend (example_documents ! 2) \<lparr>score = 2\<rparr>]"
  by (simp add: graded_index_def eval_search)

text \<open>
  C5, amended. On an index whose store has the columns of the query's
  embedding, not exactly one row, and no more rows than there are documents, a
  search with \<open>k \<le> 0\<close> raises nothing and returns the slice \<^verbatim>\<open>[:k]\<close> of the
  ranking: the documents, with their scores, at the first \<open>max 0 (n + k)\<close>
  positions of the argsort of the negated scores of the \<open>n\<close> rows for \<open>k < 0\<close>,
  and the empty list for \<open>k = 0\<close>.
\<close>

theorem search_nonpositive_k_returns:
  assumes "well_shaped self query" "length (store_rows self) \<noteq> 1"
    and "length (store_rows self) \<le> length (documents self)" and "k \<le> 0"
  shows "search srt self query k =
           Inr (map (\<lambda>i. document.extend (documents self ! i)
                          \<lparr>score = dot (model self query) (store_rows self ! i)\<rparr>)
                  (take (if k = 0 then 0 else nat (int (length (store_rows self)) + k))
                     (Rep_sorter srt (map uminus (scores self query)))))"
proof -
  obtain "is" where t: "search_topk srt self query k = Inr is"
    and s: "search srt self query k = Inr (map (\<lambda>i. document.extend (documents self ! i)
                            \<lparr>score = dot (model self query) (store_rows self ! i)\<rparr>) is)"
    using search_total [OF assms(1-3), of srt k] by auto
  have "is = take (if k = 0 then 0 else nat (int (length (store_rows self)) + k))
                     (Rep_sorter srt (map uminus (scores self query)))"
  proof (cases "k = 0")
    case True
    then show ?thesis using t by (simp add: search_topk_Inr)
  next
    case False
    then have "k < 0" using assms(4) by simp
    moreover have "length (store_rows self) - nat (- k) = nat (int (length (store_rows self)) + k)"
      using \<open>k < 0\<close> by linarith
    ultimately show ?thesis using t by (simp add: search_topk_Inr ranking_def)
  qed
  then show ?thesis using s by simp
qed

theorem search_nonpositive_k_returns_witness:
  "well_shaped graded_index ''q'' \<and> length (store_rows graded_index) \<noteq> 1 \<and>
   length (store_rows graded_index) \<le> length (documents graded_index) \<and> (- 2 :: int) \<le> 0 \<and>
   search stable_sorter graded_index ''q'' (- 2) =
     Inr [document.extend (example_documents ! 1) \<lparr>score = 4\<rparr>]"
proof -
  have h: "well_shaped graded_index ''q''" "length (store_rows graded_index) \<noteq> 1"
    "length (store_rows graded_index) \<le> length (documents graded_index)" "(- 2 :: int) \<le> 0"
    by (simp_all add: graded_index_def well_shaped_def store_rows_def example_documents_def)
  have "search stable_sorter graded_index ''q'' (- 2) =
      Inr (map (\<lambda>i. document.extend (documents graded_index ! i)
                          \<lparr>score = dot (model graded_index ''q'') (store_rows graded_index ! i)\<rparr>)
                  (take (if (- 2 :: int) = 0 then 0
                         else nat (int (length (store_rows graded_index)) + (- 2)))
                     (Rep_sorter stable_sorter (map uminus (scores graded_index ''q'')))))"
    using search_nonpositive_k_returns [OF h] .
  also have "\<dots> = Inr [document.extend (example_documents ! 1) \<lparr>score = 4\<rparr>]"
    by (simp add: graded_index_def store_rows_def scores_def eval_search)
  finally show ?thesis using h by simp
qed

section \<open>A result is a stored chunk with its score\<close>

text \<open>
  C6. Whenever \<^verbatim>\<open>search\<close> returns, every result is, for some position \<open>i\<close> of the
  index, the document stored at \<open>i\<close> (its text and its metadata, unchanged)
  extended by a score, and the score is the dot product of the query's
  embedding with row \<open>i\<close> of the embedding store.
\<close>

theorem search_result_carries_chunk_and_score:
  assumes "search srt self query k = Inr rs"
  shows "\<forall>r\<in>set rs. \<exists>i. i < length (documents self) \<and> i < length (store_rows self) \<and>
            document.truncate r = documents self ! i \<and>
            text r = text (documents self ! i) \<and>
            metadata r = metadata (documents self ! i) \<and>
            score r = dot (model self query) (store_rows self ! i)"
proof -
  obtain "is" where t: "search_topk srt self query k = Inr is"
    and rng: "\<forall>i\<in>set is. i < length (documents self) \<and> i < length (store_rows self)"
    and rs: "rs = map (\<lambda>i. document.extend (documents self ! i)
                            \<lparr>score = dot (model self query) (store_rows self ! i)\<rparr>) is"
    using search_Inr [OF assms] by blast
  show ?thesis
  proof
    fix r assume "r \<in> set rs"
    then obtain i where i: "i \<in> set is"
      and r: "r = document.extend (documents self ! i)
                            \<lparr>score = dot (model self query) (store_rows self ! i)\<rparr>"
      unfolding rs by auto
    have "document.truncate r = documents self ! i"
      by (simp add: r document.extend_def document.truncate_def)
    moreover have "text r = text (documents self ! i)" "metadata r = metadata (documents self ! i)"
      "score r = dot (model self query) (store_rows self ! i)"
      by (simp_all add: r document.extend_def)
    ultimately show "\<exists>i. i < length (documents self) \<and> i < length (store_rows self) \<and>
            document.truncate r = documents self ! i \<and>
            text r = text (documents self ! i) \<and>
            metadata r = metadata (documents self ! i) \<and>
            score r = dot (model self query) (store_rows self ! i)"
      using rng i by blast
  qed
qed

theorem search_result_carries_chunk_and_score_witness:
  "search stable_sorter graded_index ''q'' 7 =
     Inr [document.extend (example_documents ! 1) \<lparr>score = 4\<rparr>,
          document.extend (example_documents ! 2) \<lparr>score = 2\<rparr>,
          document.extend (example_documents ! 0) \<lparr>score = 1\<rparr>] \<and>
   (\<exists>i<3. document.truncate (document.extend (example_documents ! 1) \<lparr>score = 4\<rparr>)
              = documents graded_index ! i \<and>
           4 = dot (model graded_index ''q'') (store_rows graded_index ! i))"
proof -
  let ?r = "document.extend (example_documents ! 1) \<lparr>score = 4\<rparr>"
  have s: "search stable_sorter graded_index ''q'' 7 =
     Inr [?r, document.extend (example_documents ! 2) \<lparr>score = 2\<rparr>,
          document.extend (example_documents ! 0) \<lparr>score = 1\<rparr>]"
    by (simp add: graded_index_def eval_search)
  have "\<exists>i. i < length (documents graded_index) \<and> i < length (store_rows graded_index) \<and>
            document.truncate ?r = documents graded_index ! i \<and>
            text ?r = text (documents graded_index ! i) \<and>
            metadata ?r = metadata (documents graded_index ! i) \<and>
            score ?r = dot (model graded_index ''q'') (store_rows graded_index ! i)"
    using search_result_carries_chunk_and_score [OF s] by simp
  then obtain i where "i < length (store_rows graded_index)"
    "document.truncate ?r = documents graded_index ! i"
    "score ?r = dot (model graded_index ''q'') (store_rows graded_index ! i)"
    by blast
  then have "i < 3 \<and> document.truncate ?r = documents graded_index ! i \<and>
           4 = dot (model graded_index ''q'') (store_rows graded_index ! i)"
    by (simp add: graded_index_def store_rows_def document.extend_def)
  with s show ?thesis by blast
qed

section \<open>The rows of the store and the documents\<close>

text \<open>
  C10. \<^verbatim>\<open>search\<close> indexes the documents with positions of rows of the store. If
  it returns for every \<open>k\<close>, the store has no more rows than there are
  documents; with more rows (and the columns of the query's embedding), the
  search for all rows raises the list's \<^verbatim>\<open>IndexError\<close>; with no more rows than
  documents that error never occurs. The build path checks nothing of this:
  when the file of embeddings exists, the index holds its array as it is,
  beside whatever documents it is given.
\<close>

theorem search_total_only_if_rows_within_documents:
  "((\<forall>k. \<exists>rs. search srt self query k = Inr rs)
      \<longrightarrow> length (store_rows self) \<le> length (documents self)) \<and>
   (length (documents self) < length (store_rows self) \<and> well_shaped self query \<and>
      length (store_rows self) \<noteq> 1
      \<longrightarrow> search srt self query (int (length (store_rows self))) = Inl IndexError_list_index) \<and>
   (length (store_rows self) \<le> length (documents self)
      \<longrightarrow> search srt self query k \<noteq> Inl IndexError_list_index) \<and>
   vectorstore (build_index (Some cached) enc docs) = cached \<and>
   documents (build_index (Some cached) enc docs) = docs"
proof (intro conjI impI)
  assume tot: "\<forall>k. \<exists>rs. search srt self query k = Inr rs"
  let ?n = "length (store_rows self)"
  obtain rs where s: "search srt self query (int ?n) = Inr rs" using tot by blast
  obtain "is" where t: "search_topk srt self query (int ?n) = Inr is"
    and rng: "\<forall>i\<in>set is. i < length (documents self) \<and> i < ?n"
    using search_Inr [OF s] by blast
  have "is = ranking srt (scores self query)"
    using t by (simp add: search_topk_Inr)
  then have "set is = {0..<?n}" by simp
  then show "?n \<le> length (documents self)"
    using rng by (cases ?n) auto
next
  assume h: "length (documents self) < length (store_rows self) \<and> well_shaped self query \<and>
      length (store_rows self) \<noteq> 1"
  let ?n = "length (store_rows self)"
  let ?L = "ranking srt (scores self query)"
  have t: "search_topk srt self query (int ?n) = Inr ?L"
    using h by (simp add: search_topk_Inr)
  have "length (documents self) \<in> set ?L" using h by simp
  then have nr: "\<not> (\<forall>i\<in>set ?L. i < length (documents self))" by blast
  obtain e where "collect (documents self) (squeeze (scores self query)) ?L = Inl e"
    using nr collect_Inr [of "documents self" "squeeze (scores self query)" ?L]
    by (cases "collect (documents self) (squeeze (scores self query)) ?L") auto
  moreover from this have "e = IndexError_list_index" using collect_Inl by blast
  ultimately show "search srt self query (int ?n) = Inl IndexError_list_index"
    using t by (simp add: search_via_topk)
next
  assume le: "length (store_rows self) \<le> length (documents self)"
  show "search srt self query k \<noteq> Inl IndexError_list_index"
  proof
    assume e: "search srt self query k = Inl IndexError_list_index"
    then obtain "is" where t: "search_topk srt self query k = Inr is"
      and c: "collect (documents self) (squeeze (scores self query)) is = Inl IndexError_list_index"
      by (auto simp: search_via_topk search_topk_Inl split: sum.splits)
    from collect_Inl [OF c] obtain i where "i \<in> set is" "length (documents self) \<le> i" by blast
    then show False using topk_in_range [OF t] le by fastforce
  qed
next
  show "vectorstore (build_index (Some cached) enc docs) = cached"
    by (simp add: build_index_def load_or_encode_def)
  show "documents (build_index (Some cached) enc docs) = docs"
    by (simp add: build_index_def)
qed

theorem search_total_only_if_rows_within_documents_witness:
  "(\<forall>k. \<exists>rs. search stable_sorter graded_index ''q'' k = Inr rs) \<and>
   length (store_rows graded_index) \<le> length (documents graded_index) \<and>
   search stable_sorter graded_index ''q'' 2 \<noteq> Inl IndexError_list_index \<and>
   length (documents stale_index) < length (store_rows stale_index) \<and>
   well_shaped stale_index ''q'' \<and> length (store_rows stale_index) \<noteq> 1 \<and>
   search stable_sorter stale_index ''q'' 3 = Inl IndexError_list_index \<and>
   vectorstore stale_index = Array2 2 [[1, 0], [3, 1], [2, 0]]"
proof -
  have g: "well_shaped graded_index ''q''" "length (store_rows graded_index) \<noteq> 1"
    "length (store_rows graded_index) \<le> length (documents graded_index)"
    by (simp_all add: graded_index_def well_shaped_def store_rows_def example_documents_def)
  have tot: "\<forall>k. \<exists>rs. search stable_sorter graded_index ''q'' k = Inr rs"
    using search_total [OF g] by blast
  have st: "length (documents stale_index) < length (store_rows stale_index)"
    "well_shaped stale_index ''q''" "length (store_rows stale_index) \<noteq> 1"
    "length (store_rows stale_index) = 3"
    by (simp_all add: stale_index_def build_index_def load_or_encode_def well_shaped_def
        store_rows_def example_documents_def)
  have "search stable_sorter graded_index ''q'' 2 \<noteq> Inl IndexError_list_index"
    using search_total_only_if_rows_within_documents [of stable_sorter graded_index "''q''" 2] g(3)
    by blast
  moreover have "search stable_sorter stale_index ''q'' (int (length (store_rows stale_index)))
      = Inl IndexError_list_index"
    using search_total_only_if_rows_within_documents [of stable_sorter stale_index "''q''"] st(1-3)
    by blast
  then have "search stable_sorter stale_index ''q'' 3 = Inl IndexError_list_index"
    by (simp add: st(4))
  moreover have "vectorstore stale_index = Array2 2 [[1, 0], [3, 1], [2, 0]]"
    unfolding stale_index_def
    using search_total_only_if_rows_within_documents [of stable_sorter graded_index "''q''" 2]
    by blast
  ultimately show ?thesis using tot g(3) st(1-3) by blast
qed

section \<open>Lemmas on the citations\<close>

lemma foldl_fromkeys:
  "map fst (foldl (\<lambda>d k. if k \<in> set (map fst d) then d else d @ [(k, ())]) d ks)
     = map fst d @ unseen (map fst d) ks"
  by (induction ks arbitrary: d) auto

lemma fromkeys_unseen: "map fst (fromkeys ks) = unseen [] ks"
  using foldl_fromkeys [of "[]" ks] by (simp add: fromkeys_def)

lemma set_unseen: "set (unseen seen ks) = set ks - set seen"
  by (induction ks arbitrary: seen) auto

lemma distinct_unseen: "distinct (unseen seen ks)"
  by (induction ks arbitrary: seen) (auto simp: set_unseen)

lemma first_index_Cons:
  "first_index (k # ks) x = (if x = k then 0 else Suc (first_index ks x))"
  by (auto simp: first_index_def)

lemma first_seen_order_unseen:
  "sorted_wrt (\<lambda>u v. first_index ks u < first_index ks v) (unseen seen ks)"
proof (induction ks arbitrary: seen)
  case Nil
  then show ?case by simp
next
  case (Cons k ks)
  have shift: "sorted_wrt (\<lambda>u v. first_index (k # ks) u < first_index (k # ks) v) (unseen sn ks)"
    if "k \<in> set sn" for sn
  proof (rule sorted_wrt_mono_rel [OF _ Cons.IH [of sn]])
    fix u v
    assume "u \<in> set (unseen sn ks)" "v \<in> set (unseen sn ks)"
      and "first_index ks u < first_index ks v"
    moreover from this have "u \<noteq> k" "v \<noteq> k" using that by (auto simp: set_unseen)
    ultimately show "first_index (k # ks) u < first_index (k # ks) v"
      by (simp add: first_index_Cons)
  qed
  show ?case
  proof (cases "k \<in> set seen")
    case True
    then show ?thesis using shift [of seen] by simp
  next
    case False
    have "first_index (k # ks) k < first_index (k # ks) v" if "v \<in> set (unseen (seen @ [k]) ks)" for v
      using that by (auto simp: set_unseen first_index_Cons)
    then show ?thesis using False shift [of "seen @ [k]"] by simp
  qed
qed

lemma nth_citation:
  "i < length us \<Longrightarrow>
   map (\<lambda>(i, u). str_nat (i + 1) @ ''. '' @ u) (enumerate 0 us) ! i = str_nat (Suc i) @ ''. '' @ us ! i"
  by (simp add: nth_enumerate_eq)

section \<open>The citations of an answer\<close>

text \<open>
  C9. Whenever \<^verbatim>\<open>ChatQA.__call__\<close> returns, the search of the call, for the
  question itself or, with history, for the follow-up query, has returned
  documents, and the result of the call is the answer of the generator on the
  prompt made of these documents, followed by the citation lines; line \<open>i\<close> is
  the number \<open>i + 1\<close> and the \<open>i\<close>-th cited URL; the cited URLs are the URLs of
  these documents, each exactly once, in the order of their first occurrence
  in the ranked results.
\<close>

theorem citation_urls_once_in_first_seen_order:
  fixes self :: ChatQA and question :: string and hist :: bool
  defines "query \<equiv> (if hist \<and> length (history self) \<noteq> 0
                     then follow_up_query self question else question)"
  assumes "ChatQA_call srt self question hist = Inr (out, self')"
  shows "\<exists>docs citation.
           search srt (ir self) query 4 = Inr docs \<and>
           out = join ''\<newline>''
                   (llm self (Messages [(''system'',
                      question_template (join document_separator (map text docs)) query)])
                    # citation) \<and>
           length citation = length (cited_urls docs) \<and>
           (\<forall>i<length citation. citation ! i = str_nat (Suc i) @ ''. '' @ cited_urls docs ! i) \<and>
           distinct (cited_urls docs) \<and>
           set (cited_urls docs) = set (map (\<lambda>document. url (metadata document)) docs) \<and>
           sorted_wrt (\<lambda>u v. first_index (map (\<lambda>document. url (metadata document)) docs) u
                                < first_index (map (\<lambda>document. url (metadata document)) docs) v)
             (cited_urls docs)"
proof -
  from assms(2) obtain docs where s: "search srt (ir self) query 4 = Inr docs"
    by (cases "search srt (ir self) query 4") (auto simp: ChatQA_call_def Let_def query_def)
  let ?urls = "map (\<lambda>document. url (metadata document)) docs"
  let ?answer = "llm self (Messages [(''system'',
      question_template (join document_separator (map text docs)) query)])"
  let ?citation = "map (\<lambda>(i, u). str_nat (i + 1) @ ''. '' @ u) (enumerate 0 (cited_urls docs))"
  have out: "out = join ''\<newline>'' (?answer # ?citation)"
    using assms(2) s by (simp add: ChatQA_call_def Let_def cited_urls_def query_def)
  have c: "cited_urls docs = unseen [] ?urls"
    by (simp add: cited_urls_def fromkeys_unseen)
  have "length ?citation = length (cited_urls docs)" by simp
  moreover have "\<forall>i<length ?citation. ?citation ! i = str_nat (Suc i) @ ''. '' @ cited_urls docs ! i"
    using nth_citation [of _ "cited_urls docs"] by simp
  moreover have "distinct (cited_urls docs)"
    unfolding c by (rule distinct_unseen)
  moreover have "set (cited_urls docs) = set ?urls"
    unfolding c by (simp add: set_unseen)
  moreover have "sorted_wrt (\<lambda>u v. first_index ?urls u < first_index ?urls v) (cited_urls docs)"
    unfolding c by (rule first_seen_order_unseen)
  ultimately show ?thesis using s out by blast
qed

theorem citation_urls_once_in_first_seen_order_witness:
  "ChatQA_call stable_sorter chat_example ''q'' False
     = Inr (''yes\<newline>1. https://a\<newline>2. https://b'', chat_example) \<and>
   (\<exists>docs citation.
      search stable_sorter (ir chat_example) ''q'' 4 = Inr docs \<and>
      ''yes\<newline>1. https://a\<newline>2. https://b''
        = join ''\<newline>''
            (llm chat_example (Messages [(''system'',
               question_template (join document_separator (map text docs)) ''q'')])
             # citation) \<and>
      length citation = length (cited_urls docs) \<and>
      distinct (cited_urls docs) \<and>
      set (cited_urls docs) = set (map (\<lambda>document. url (metadata document)) docs))"
proof -
  have c: "ChatQA_call stable_sorter chat_example ''q'' False
     = Inr (''yes\<newline>1. https://a\<newline>2. https://b'', chat_example)"
    by (simp add: ChatQA_call_def chat_example_def graded_index_def eval_search fromkeys_def
        enumerate_eq_zip digit_def document.extend_def document_separator_def)
  show ?thesis
    using citation_urls_once_in_first_seen_order [OF c] c by auto
qed

section \<open>The splitter on the document of the scenario\<close>

text \<open>
  C8, as stated, fails on the algorithm of section 4.1: splitting
  \<^verbatim>\<open>"A. B. C."\<close> on \<^verbatim>\<open>". "\<close> gives the pieces \<^verbatim>\<open>"A"\<close>, \<^verbatim>\<open>"B"\<close>, \<^verbatim>\<open>"C."\<close>; the first two,
  joined by the separator, have four characters, which does not exceed the
  chunk size 4, so they are packed into one chunk. The result is not
  \<^verbatim>\<open>["A.", "B.", "C."]\<close>.
\<close>

theorem split_text_scenario_counterexample:
  "split_text ''A. B. C.'' 4 0 [''. ''] \<noteq> Inr [''A.'', ''B.'', ''C.'']"
  by (simp add: split_text_def split_on_def emit_def seed_def is_space_def)

text \<open>
  C8, amended. With chunk size 4, overlap 0 and the one separator \<^verbatim>\<open>". "\<close>, the
  greedy packing of \<^verbatim>\<open>"A. B. C."\<close> returns exactly \<^verbatim>\<open>["A. B", "C."]\<close>.
\<close>

theorem split_text_scenario:
  "split_text ''A. B. C.'' 4 0 [''. ''] = Inr [''A. B'', ''C.'']"
  by (simp add: split_text_def split_on_def emit_def seed_def is_space_def)
end
